theory Spec2Isabelle
  imports Main "HOL-Library.Word"
begin

section \<open>Strings and paths of the run-time library\<close>

text \<open>
  The program is a C++Builder form (\<^verbatim>\<open>Zipu1.h\<close>, \<^verbatim>\<open>Zipu1.cpp\<close>). Everything it does
  to the outside world goes through the Win32 resource API, the RTL units
  \<^verbatim>\<open>System.IOUtils\<close> (\<^verbatim>\<open>TPath\<close>, \<^verbatim>\<open>TDirectory\<close>) and \<^verbatim>\<open>System.Zip\<close> (\<^verbatim>\<open>TZipFile\<close>), and the
  C++ header \<^verbatim>\<open><random>\<close>. None of these is part of the repository. This first section
  models the pure string functions of the RTL from their published behaviour on Windows;
  the methods of \<^verbatim>\<open>TForm1\<close> further down are translated from the source line by line.

  A path is a \<^typ>\<open>string\<close>. Windows separates directories with a backslash and the
  archive format with a slash; the file system takes either (\<open>is_sep\<close>). The functions of
  the RTL that cut a path into directory and name look for the last backslash or colon only
  (\<open>is_delim\<close>): a slash is not a delimiter for them.
\<close>

definition PathDelim :: char where
  "PathDelim = CHR 0x5C"

definition is_sep :: "char \<Rightarrow> bool" where
  "is_sep c = (c = PathDelim \<or> c = CHR ''/'')"

definition is_delim :: "char \<Rightarrow> bool" where
  "is_delim c = (c = PathDelim \<or> c = CHR '':'')"

text \<open>\<^verbatim>\<open>IntToStr\<close>: the decimal digits of an integer, with a minus sign when negative.\<close>

definition digit :: "nat \<Rightarrow> char" where
  "digit n = ''0123456789'' ! n"

fun digits :: "nat \<Rightarrow> string" where
  "digits n = (if n < 10 then [digit n] else digits (n div 10) @ [digit (n mod 10)])"

declare digits.simps [simp del]

definition IntToStr :: "int \<Rightarrow> string" where
  "IntToStr i = (if i < 0 then CHR ''-'' # digits (nat (- i)) else digits (nat i))"

text \<open>
  \<^verbatim>\<open>TPath::Combine\<close>: the second path alone when it is rooted (it starts with a separator
  or carries a drive letter), otherwise the two paths joined by one delimiter.
\<close>

definition is_rooted :: "string \<Rightarrow> bool" where
  "is_rooted p = (case p of
       [] \<Rightarrow> False
     | c # cs \<Rightarrow> is_sep c \<or> (case cs of [] \<Rightarrow> False | d # _ \<Rightarrow> d = CHR '':''))"

definition Combine :: "string \<Rightarrow> string \<Rightarrow> string" where
  "Combine p1 p2 =
     (if p2 = [] then p1
      else if p1 = [] then p2
      else if is_rooted p2 then p2
      else if is_sep (last p1) then p1 @ p2
      else p1 @ [PathDelim] @ p2)"

text \<open>
  \<^verbatim>\<open>TPath::GetDirectoryName\<close>: the drive and directory parts of a file name, that is the text
  up to the last colon or backslash, and nothing when there is none. The delimiter itself is
  left out when it is a backslash that neither starts the path nor follows another
  delimiter, and kept otherwise (the root of a drive keeps its backslash). In \<open>r\<close> the text up
  to and including the last delimiter is held reversed.
\<close>

definition GetDirectoryName :: "string \<Rightarrow> string" where
  "GetDirectoryName p =
     (let r = dropWhile (\<lambda>c. \<not> is_delim c) (rev p)
      in case r of
           [] \<Rightarrow> []
         | d # rest \<Rightarrow>
             if d = PathDelim \<and> rest \<noteq> [] \<and> \<not> is_delim (hd rest) then rev rest else rev r)"

text \<open>
  \<^verbatim>\<open>TPath::GetFileNameWithoutExtension\<close>: the text after the last colon or backslash, cut
  at its last dot.
\<close>

definition GetFileName :: "string \<Rightarrow> string" where
  "GetFileName p = rev (takeWhile (\<lambda>c. \<not> is_delim c) (rev p))"

definition GetFileNameWithoutExtension :: "string \<Rightarrow> string" where
  "GetFileNameWithoutExtension p =
     (let n = GetFileName p in
      if CHR ''.'' \<in> set n then rev (tl (dropWhile (\<lambda>c. c \<noteq> CHR ''.'') (rev n))) else n)"

text \<open>
  File masks. Windows compares file names without regard to case; \<open>*\<close> stands for any
  run of characters and \<open>?\<close> for one.
\<close>

definition lower :: "char \<Rightarrow> char" where
  "lower c = (let n = (of_char c :: nat) in if 65 \<le> n \<and> n \<le> 90 then char_of (n + 32) else c)"

fun mask_match :: "string \<Rightarrow> string \<Rightarrow> bool" where
  "mask_match [] [] = True"
| "mask_match [] (c # cs) = False"
| "mask_match (m # ms) [] = (m = CHR ''*'' \<and> mask_match ms [])"
| "mask_match (m # ms) (c # cs) =
     (if m = CHR ''*'' then mask_match ms (c # cs) \<or> mask_match (m # ms) cs
      else (m = CHR ''?'' \<or> lower m = lower c) \<and> mask_match ms cs)"

section \<open>The file system\<close>

text \<open>
  The disk is the list of its directories and the list of its regular files, each named
  by its canonical path: the list of segments from the root, the drive first, \<open>.\<close> and \<open>..\<close>
  resolved. A \<open>..\<close> at the root of a drive stays there. The order of \<open>files\<close> is the order in
  which the system enumerates them. File contents are left out: no method of the form reads
  them.
\<close>

type_synonym node = "string list"

record filesys =
  dirs :: "node list"
  files :: "node list"

fun split_path :: "string \<Rightarrow> string \<Rightarrow> string list" where
  "split_path seg [] = (if seg = [] then [] else [rev seg])"
| "split_path seg (c # cs) =
     (if is_sep c then (if seg = [] then split_path [] cs else rev seg # split_path [] cs)
      else split_path (c # seg) cs)"

definition is_drive :: "string \<Rightarrow> bool" where
  "is_drive s = (s \<noteq> [] \<and> last s = CHR '':'')"

text \<open>The segments walked so far are held innermost first.\<close>

definition parent :: "node \<Rightarrow> node" where
  "parent acc =
     (case acc of
        [] \<Rightarrow> []
      | d # rest \<Rightarrow> if rest = [] \<and> is_drive d then acc else rest)"

fun resolve :: "node \<Rightarrow> string list \<Rightarrow> node" where
  "resolve acc [] = rev acc"
| "resolve acc (s # ss) =
     (if s = ''.'' then resolve acc ss
      else if s = ''..'' then resolve (parent acc) ss
      else resolve (s # acc) ss)"

definition canon :: "string \<Rightarrow> node" where
  "canon p = resolve [] (split_path [] p)"

definition under :: "node \<Rightarrow> node \<Rightarrow> bool" where
  "under d n = (length d < length n \<and> take (length d) n = d)"

definition within :: "node \<Rightarrow> node \<Rightarrow> bool" where
  "within d n = (take (length d) n = d)"

definition DirExists :: "filesys \<Rightarrow> string \<Rightarrow> bool" where
  "DirExists f p = (p \<noteq> [] \<and> canon p \<in> set (dirs f))"

text \<open>
  \<^verbatim>\<open>TDirectory::CreateDirectory\<close>, when it takes effect, creates the directory and every
  missing ancestor, and does nothing when the directory is there.
\<close>

definition ancestors :: "node \<Rightarrow> node list" where
  "ancestors n = map (\<lambda>k. take k n) [1..<Suc (length n)]"

definition make_dirs :: "filesys \<Rightarrow> node \<Rightarrow> filesys" where
  "make_dirs f n = f\<lparr>dirs := dirs f @ filter (\<lambda>a. a \<notin> set (dirs f)) (ancestors n)\<rparr>"

definition make_file :: "filesys \<Rightarrow> node \<Rightarrow> filesys" where
  "make_file f n = (if n \<in> set (files f) then f else f\<lparr>files := files f @ [n]\<rparr>)"

text \<open>\<^verbatim>\<open>TDirectory::Delete(path, true)\<close> removes the directory and all it holds.\<close>

definition remove_tree :: "filesys \<Rightarrow> node \<Rightarrow> filesys" where
  "remove_tree f d =
     f\<lparr>dirs := filter (\<lambda>n. \<not> within d n) (dirs f),
       files := filter (\<lambda>n. \<not> within d n) (files f)\<rparr>"

section \<open>The platform\<close>

text \<open>
  What the operating system and the linked resource file answer during one run. The
  library calls that can raise are named by \<open>libcall\<close>; the oracle \<open>raises\<close> of the platform
  says which of them raise an \<^verbatim>\<open>Exception\<close> in this run, and with which message. A call
  that raises leaves the disk as it was. \<^verbatim>\<open>TDirectory::CreateDirectory\<close> can also fail without
  raising: it returns nothing and the directory is not there afterwards (no permission, a
  full disk). The oracle \<open>refuses\<close> says for which paths it does.
\<close>

datatype libcall =
    CreateDirectory_call string
  | ZipOpen_call
  | ZipExtract_call string string
  | GetFiles_call string string
  | Delete_call string
  | LoadFromFile_call string
  | WriteBuffer_call

record platform =
  FindResource :: bool
  LoadResource :: bool
  LockResource :: bool
  SizeofResource :: "32 word"
  FileNames :: "string list"
  GetTickCount :: "nat \<Rightarrow> 32 word"
  GetTempPath :: string
  raises :: "libcall \<Rightarrow> string option"
  refuses :: "string \<Rightarrow> bool"

text \<open>
  \<open>FindResource\<close>, \<open>LoadResource\<close> and \<open>LockResource\<close> say whether the Win32 call of that
  name returns a handle other than \<^verbatim>\<open>NULL\<close>; \<open>FileNames\<close> are the entry names of the archive
  stored in the resource, in archive order, as \<^verbatim>\<open>TZipFile\<close> lists them; \<open>GetTickCount p k\<close>
  is what the \<open>k\<close>-th call of \<^verbatim>\<open>GetTickCount()\<close> returns (the constructor makes call 0,
  \<^verbatim>\<open>ExtractZipToTemp\<close> call 1).
\<close>

definition TDirectory_CreateDirectory :: "platform \<Rightarrow> filesys \<Rightarrow> string \<Rightarrow> string + filesys" where
  "TDirectory_CreateDirectory p f path =
     (case raises p (CreateDirectory_call path) of
        Some m \<Rightarrow> Inl m
      | None \<Rightarrow> Inr (if refuses p path then f else make_dirs f (canon path)))"

text \<open>
  \<^verbatim>\<open>TZipFile::Extract(FileName, Path, CreateSubdirs = true)\<close>. The form calls it with two
  arguments, so the third takes its declared default: the library turns the slashes of the
  entry name into delimiters, joins \<^verbatim>\<open>Path\<close> and the whole entry name, its directories
  included, creates the directory of the result, and writes the file there unless the
  name ends in a delimiter (a directory entry). A call that returns has done so: where the
  file cannot be written, the call raises.
\<close>

definition to_delim :: "string \<Rightarrow> string" where
  "to_delim n = map (\<lambda>c. if c = CHR ''/'' then PathDelim else c) n"

definition extract_target :: "string \<Rightarrow> string \<Rightarrow> string" where
  "extract_target path fileName = Combine path (to_delim fileName)"

definition TZipFile_Extract :: "platform \<Rightarrow> filesys \<Rightarrow> string \<Rightarrow> string \<Rightarrow> string + filesys" where
  "TZipFile_Extract p f fileName path =
     (case raises p (ZipExtract_call fileName path) of
        Some m \<Rightarrow> Inl m
      | None \<Rightarrow>
          (let target = extract_target path fileName;
               f1 = make_dirs f (canon (GetDirectoryName target))
           in Inr (if target \<noteq> [] \<and> is_sep (last target) then f1
                   else make_file f1 (canon target))))"

text \<open>
  \<^verbatim>\<open>TDirectory::GetFiles(path, mask, soAllDirectories)\<close>: the files below \<open>path\<close>, at any
  depth, whose name matches the pattern, each returned as \<open>path\<close> joined with the segments that
  lead to it.
\<close>

definition render :: "string \<Rightarrow> node \<Rightarrow> string" where
  "render path n = foldl Combine path (drop (length (canon path)) n)"

definition found :: "filesys \<Rightarrow> string \<Rightarrow> string \<Rightarrow> node list" where
  "found f path pat =
     filter (\<lambda>n. under (canon path) n \<and> mask_match pat (last n)) (files f)"

definition TDirectory_GetFiles :: "platform \<Rightarrow> filesys \<Rightarrow> string \<Rightarrow> string \<Rightarrow> string + string list" where
  "TDirectory_GetFiles p f path pat =
     (case raises p (GetFiles_call path pat) of
        Some m \<Rightarrow> Inl m
      | None \<Rightarrow> Inr (map (render path) (found f path pat)))"

definition TDirectory_Delete :: "platform \<Rightarrow> filesys \<Rightarrow> string \<Rightarrow> string + filesys" where
  "TDirectory_Delete p f path =
     (case raises p (Delete_call path) of
        Some m \<Rightarrow> Inl m
      | None \<Rightarrow> Inr (remove_tree f (canon path)))"

text \<open>
  \<^verbatim>\<open>std::mt19937\<close> and \<^verbatim>\<open>std::uniform_int_distribution<int>\<close>: the engine is an abstract
  state \<open>'g\<close>; \<open>seed\<close> builds it from a 32-bit value, and \<open>uniform_int_distribution r a b g\<close>
  is one draw of the distribution over \<open>[a, b]\<close> from the engine \<open>g\<close>: the number drawn and the
  engine as the draw leaves it. How a draw consumes the engine is the library's business.
\<close>

record 'g random =
  seed :: "32 word \<Rightarrow> 'g"
  uniform_int_distribution :: "int \<Rightarrow> int \<Rightarrow> 'g \<Rightarrow> int \<times> 'g"


section \<open>The form\<close>

text \<open>
  The state of a run: the three data members of \<^verbatim>\<open>TForm1\<close>, the properties of its four
  components that the methods write, the messages shown by \<^verbatim>\<open>ShowMessage\<close> so far, and the
  disk.
\<close>

datatype TColor = clBlack | clGreen | clRed

record 'g state =
  flagFiles :: "string list"
  tempDirectory :: string
  randomGenerator :: 'g
  ImageFlag :: "string option"
  LabelFlagName :: string
  LabelStatus :: string
  LabelStatus_Color :: TColor
  shown :: "string list"
  disk :: filesys

definition ShowMessage :: "string \<Rightarrow> 'g state \<Rightarrow> 'g state" where
  "ShowMessage m s = s\<lparr>shown := shown s @ [m]\<rparr>"

text \<open>\<^verbatim>\<open>static_cast<int>\<close> of an unsigned value: the low 32 bits, read as signed.\<close>

definition to_int :: "nat \<Rightarrow> int" where
  "to_int n = sint (word_of_nat n :: 32 word)"

section \<open>The methods of the form\<close>

text \<open>
  The loop of \<^verbatim>\<open>ExtractZipToTemp\<close> over the entries \<^verbatim>\<open>FileNames[0 .. FileCount - 1]\<close>, in
  archive order. It stops at the first library call that raises and returns its message.
\<close>

fun extract_entries :: "platform \<Rightarrow> string \<Rightarrow> string list \<Rightarrow> filesys \<Rightarrow> string option \<times> filesys" where
  "extract_entries p td [] f = (None, f)"
| "extract_entries p td (fileName # rest) f =
     (let fullPath = Combine td fileName;
          dir = GetDirectoryName fullPath
      in case (if \<not> DirExists f dir then TDirectory_CreateDirectory p f dir else Inr f) of
           Inl m \<Rightarrow> (Some m, f)
         | Inr f1 \<Rightarrow>
             (case TZipFile_Extract p f1 fileName dir of
                Inl m \<Rightarrow> (Some m, f1)
              | Inr f2 \<Rightarrow> extract_entries p td rest f2))"

text \<open>
  Where an entry ends up when nothing raises: the loop hands \<^verbatim>\<open>Extract\<close> the entry name and
  the directory of \<^verbatim>\<open>fullPath\<close>, and the library joins the two again.
\<close>

definition written :: "string \<Rightarrow> string \<Rightarrow> string" where
  "written td n = extract_target (GetDirectoryName (Combine td n)) n"

definition ExtractZipToTemp :: "platform \<Rightarrow> 'g state \<Rightarrow> bool \<times> 'g state" where
  "ExtractZipToTemp p s =
     (let s1 = s\<lparr>tempDirectory :=
                   GetTempPath p @ ''FlagImages_'' @ IntToStr (sint (GetTickCount p 1))\<rparr>
      in case TDirectory_CreateDirectory p (disk s1) (tempDirectory s1) of
           Inl m \<Rightarrow> (False, ShowMessage ''Unable to create temporary directory'' s1)
         | Inr f \<Rightarrow>
             (let s2 = s1\<lparr>disk := f\<rparr> in
              if \<not> DirExists (disk s2) (tempDirectory s2)
              then (False, ShowMessage ''Unable to create temporary directory'' s2)
              else
                (case raises p ZipOpen_call of
                   Some m \<Rightarrow> (False, ShowMessage (''Error extracting ZIP file: '' @ m) s2)
                 | None \<Rightarrow>
                     (case extract_entries p (tempDirectory s2) (FileNames p) (disk s2) of
                        (Some m, f') \<Rightarrow>
                          (False, ShowMessage (''Error extracting ZIP file: '' @ m) (s2\<lparr>disk := f'\<rparr>))
                      | (None, f') \<Rightarrow> (True, s2\<lparr>disk := f'\<rparr>)))))"

definition ExtractResourceAsZip :: "platform \<Rightarrow> 'g state \<Rightarrow> bool \<times> 'g state" where
  "ExtractResourceAsZip p s =
     (if \<not> FindResource p
      then (False, ShowMessage ''No suitable resource found in the executable'' s)
      else if \<not> LoadResource p
      then (False, ShowMessage ''Unable to load resource'' s)
      else if \<not> LockResource p \<or> SizeofResource p = 0
      then (False, ShowMessage ''Invalid resource data'' s)
      else
        (case raises p WriteBuffer_call of
           Some m \<Rightarrow> (False, ShowMessage (''Error processing ZIP data: '' @ m) s)
         | None \<Rightarrow> ExtractZipToTemp p s))"

text \<open>
  \<^verbatim>\<open>LoadFlagImages\<close>. The inner loop pushes onto the member \<^verbatim>\<open>flagFiles\<close> directly, so what
  was found before a call raises stays in the list.
\<close>

definition extensions :: "string list" where
  "extensions = [''*.png'', ''*.jpg'', ''*.jpeg'', ''*.bmp'', ''*.gif'']"

fun search_files :: "platform \<Rightarrow> filesys \<Rightarrow> string \<Rightarrow> string list \<Rightarrow> string list \<Rightarrow> string option \<times> string list" where
  "search_files p f td [] acc = (None, acc)"
| "search_files p f td (ext # exts) acc =
     (case TDirectory_GetFiles p f td ext of
        Inl m \<Rightarrow> (Some m, acc)
      | Inr fs \<Rightarrow> search_files p f td exts (acc @ fs))"

definition LoadFlagImages :: "platform \<Rightarrow> 'g state \<Rightarrow> 'g state" where
  "LoadFlagImages p s =
     (let s1 = s\<lparr>flagFiles := []\<rparr> in
      if tempDirectory s1 = [] \<or> \<not> DirExists (disk s1) (tempDirectory s1) then s1
      else
        (case search_files p (disk s1) (tempDirectory s1) extensions [] of
           (Some m, acc) \<Rightarrow>
             ShowMessage (''Error searching for image files: '' @ m) (s1\<lparr>flagFiles := acc\<rparr>)
         | (None, acc) \<Rightarrow> s1\<lparr>flagFiles := acc\<rparr>))"

text \<open>
  \<^verbatim>\<open>ShowRandomFlag\<close>. The distribution is built over \<^verbatim>\<open>[0, flagFiles.size() - 1]\<close>, the upper
  bound converted to \<^verbatim>\<open>int\<close>, and drawn from once with the member \<^verbatim>\<open>randomGenerator\<close>, which
  the draw updates in place. The result is \<open>None\<close> where C++ leaves the behaviour undefined:
  a distribution whose upper bound is below its lower bound, or an index outside the vector.
\<close>

definition ShowRandomFlag :: "'g random \<Rightarrow> platform \<Rightarrow> 'g state \<Rightarrow> 'g state option" where
  "ShowRandomFlag r p s =
     (if length (flagFiles s) = 0
      then Some (s\<lparr>LabelFlagName := ''No flag images available''\<rparr>)
      else
        (let b = to_int (length (flagFiles s) - 1) in
         if b < 0 then None
         else
           (let (index, g) = uniform_int_distribution r 0 b (randomGenerator s);
                s1 = s\<lparr>randomGenerator := g\<rparr>
            in if index < 0 \<or> int (length (flagFiles s1)) \<le> index then None
               else
                 (let selectedFile = flagFiles s1 ! nat index in
                  case raises p (LoadFromFile_call selectedFile) of
                    Some m \<Rightarrow>
                      Some ((ShowMessage (''Error displaying image: '' @ m) s1)
                              \<lparr>LabelFlagName := ''Image loading failed''\<rparr>)
                  | None \<Rightarrow>
                      Some (s1\<lparr>ImageFlag := Some selectedFile,
                               LabelFlagName :=
                                 ''Flag: '' @ GetFileNameWithoutExtension selectedFile,
                               LabelStatus :=
                                 ''Status: Displaying '' @ IntToStr (index + 1) @ ''/''
                                 @ IntToStr (to_int (length (flagFiles s1))) @ '' flag''\<rparr>)))))"

definition CleanupTempFiles :: "platform \<Rightarrow> 'g state \<Rightarrow> 'g state" where
  "CleanupTempFiles p s =
     (if tempDirectory s \<noteq> [] \<and> DirExists (disk s) (tempDirectory s)
      then (case TDirectory_Delete p (disk s) (tempDirectory s) of
              Inl m \<Rightarrow> s
            | Inr f \<Rightarrow> s\<lparr>disk := f\<rparr>)
      else s)"

definition InitializeApplication :: "'g random \<Rightarrow> platform \<Rightarrow> 'g state \<Rightarrow> 'g state option" where
  "InitializeApplication r p s =
     (let s0 = s\<lparr>LabelStatus := ''Status: Extracting resource...''\<rparr>;
          (ok, s1) = ExtractResourceAsZip p s0
      in if ok
         then
           (let s2 = LoadFlagImages p s1 in
            if length (flagFiles s2) > 0
            then ShowRandomFlag r p
                   (s2\<lparr>LabelStatus :=
                         ''Status: Successfully loaded '' @ IntToStr (to_int (length (flagFiles s2)))
                         @ '' flag images''\<rparr>)
            else Some (s2\<lparr>LabelStatus := ''Status: No image files found'',
                          LabelStatus_Color := clRed\<rparr>))
         else Some (s1\<lparr>LabelStatus := ''Status: Resource extraction failed'',
                       LabelStatus_Color := clRed\<rparr>))"


definition TForm1_destroy :: "platform \<Rightarrow> 'g state \<Rightarrow> 'g state" where
  "TForm1_destroy p s = CleanupTempFiles p s"




section \<open>Sample runs\<close>

text \<open>
  A platform on which every library call succeeds, a disk that holds the temporary-files
  root and nothing else, a small congruential generator standing for the engine, and a few
  states of the form. The theorems below are instantiated on them.
\<close>

definition demo_platform :: "string list \<Rightarrow> platform" where
  "demo_platform names =
     \<lparr>FindResource = True, LoadResource = True, LockResource = True, SizeofResource = 100,
      FileNames = names, GetTickCount = (\<lambda>k. 1000), GetTempPath = ''C:/Temp/'',
      raises = (\<lambda>c. None), refuses = (\<lambda>d. False)\<rparr>"

definition demo_disk :: filesys where
  "demo_disk = \<lparr>dirs = [[''C:''], [''C:'', ''Temp'']], files = []\<rparr>"

definition demo_random :: "int random" where
  "demo_random =
     \<lparr>seed = uint,
      uniform_int_distribution =
        (\<lambda>a b g. (a + g mod (b - a + 1), (g * 1103515245 + 12345) mod 2147483648))\<rparr>"

definition demo_state :: "int state" where
  "demo_state =
       \<lparr>flagFiles = [''old.png''], tempDirectory = [], randomGenerator = 7,
        ImageFlag = None, LabelFlagName = ''Flag Name'', LabelStatus = ''Status: Ready'',
        LabelStatus_Color = clGreen, shown = [], disk = demo_disk\<rparr>"

definition demo_workspace :: "int state" where
  "demo_workspace =
     demo_state\<lparr>tempDirectory := ''C:/Temp/FlagImages_1000'',
       disk := \<lparr>dirs = [[''C:''], [''C:'', ''Temp''], [''C:'', ''Temp'', ''FlagImages_1000'']],
                 files = [[''C:'', ''Temp'', ''FlagImages_1000'', ''a.png'']]\<rparr>\<rparr>"

definition locked_platform :: platform where
  "locked_platform =
     (demo_platform [])\<lparr>raises := (\<lambda>c. case c of Delete_call d \<Rightarrow> Some ''in use'' | _ \<Rightarrow> None)\<rparr>"

definition png_disk :: filesys where
  "png_disk =
     \<lparr>dirs = [[''C:''], [''C:'', ''Temp''], [''C:'', ''Temp'', ''FlagImages_1000'']],
      files = [[''C:'', ''Temp'', ''FlagImages_1000'', ''a.png''],
               [''C:'', ''Temp'', ''FlagImages_1000'', ''b.PNG''],
               [''C:'', ''Temp'', ''FlagImages_1000'', ''c.txt''],
               [''C:'', ''Temp'', ''d.png'']]\<rparr>"

definition png_state :: "int state" where
  "png_state = demo_state\<lparr>tempDirectory := ''C:/Temp/FlagImages_1000'', disk := png_disk\<rparr>"

definition txt_state :: "int state" where
  "txt_state =
     demo_state\<lparr>tempDirectory := ''C:/Temp/FlagImages_1000'',
       LabelStatus := ''Status: Extracting resource...'',
       disk := \<lparr>dirs = [[''C:''], [''C:'', ''Temp''], [''C:'', ''Temp'', ''FlagImages_1000'']],
                 files = [[''C:'', ''Temp'', ''FlagImages_1000'', ''c.txt'']]\<rparr>\<rparr>"




definition first_instance :: "int state" where
  "first_instance = snd (ExtractZipToTemp (demo_platform [''a.png'']) demo_state)"

definition second_instance :: "int state" where
  "second_instance =
     snd (ExtractZipToTemp (demo_platform [''b.png'']) (demo_state\<lparr>disk := disk first_instance\<rparr>))"



definition read_only :: platform where
  "read_only = (demo_platform [''a.png''])\<lparr>refuses := (\<lambda>d. True)\<rparr>"

section \<open>Reading the embedded resource\<close>

lemma ShowMessage_fields [simp]:
  "disk (ShowMessage m s) = disk s" "tempDirectory (ShowMessage m s) = tempDirectory s"
  "flagFiles (ShowMessage m s) = flagFiles s" "shown (ShowMessage m s) = shown s @ [m]"
  "randomGenerator (ShowMessage m s) = randomGenerator s"
  by (simp_all add: ShowMessage_def)

text \<open>
  C5. When \<^verbatim>\<open>FindResource\<close> finds no resource of the fixed identifier and type,
  \<^verbatim>\<open>ExtractResourceAsZip\<close> returns false after the message "No suitable resource found in
  the executable"; when the resource cannot be locked or its size is zero, it returns false
  after the message "Invalid resource data". In each of these cases nothing is extracted
  (the disk and \<^verbatim>\<open>tempDirectory\<close> stay as they were) and \<^verbatim>\<open>InitializeApplication\<close> reports
  "Status: Resource extraction failed". The form has no error type: the two messages are
  what the specification calls ResourceNotFound and ResourceReadError.
\<close>

theorem ExtractResourceAsZip_reports:
  "(\<not> FindResource p \<longrightarrow>
      ExtractResourceAsZip p s =
        (False, ShowMessage ''No suitable resource found in the executable'' s))
   \<and> (FindResource p \<and> LoadResource p \<and> (\<not> LockResource p \<or> SizeofResource p = 0) \<longrightarrow>
      ExtractResourceAsZip p s = (False, ShowMessage ''Invalid resource data'' s))
   \<and> (\<not> FindResource p \<or> \<not> LockResource p \<or> SizeofResource p = 0 \<longrightarrow>
      \<not> fst (ExtractResourceAsZip p s)
      \<and> disk (snd (ExtractResourceAsZip p s)) = disk s
      \<and> tempDirectory (snd (ExtractResourceAsZip p s)) = tempDirectory s
      \<and> (\<exists>s'. InitializeApplication r p s = Some s'
               \<and> LabelStatus s' = ''Status: Resource extraction failed''
               \<and> disk s' = disk s \<and> tempDirectory s' = tempDirectory s))"
  by (auto simp add: ExtractResourceAsZip_def InitializeApplication_def ShowMessage_def)

theorem ExtractResourceAsZip_reports_witness:
  "ExtractResourceAsZip ((demo_platform [''a.png''])\<lparr>FindResource := False\<rparr>) demo_state
     = (False, ShowMessage ''No suitable resource found in the executable'' demo_state)
   \<and> ExtractResourceAsZip ((demo_platform [''a.png''])\<lparr>SizeofResource := 0\<rparr>) demo_state
     = (False, ShowMessage ''Invalid resource data'' demo_state)
   \<and> disk (snd (ExtractResourceAsZip ((demo_platform [''a.png''])\<lparr>SizeofResource := 0\<rparr>) demo_state))
     = demo_disk"
  using ExtractResourceAsZip_reports
          [of "(demo_platform [''a.png''])\<lparr>FindResource := False\<rparr>" demo_state demo_random]
        ExtractResourceAsZip_reports
          [of "(demo_platform [''a.png''])\<lparr>SizeofResource := 0\<rparr>" demo_state demo_random]
  by (simp add: demo_platform_def demo_state_def)

section \<open>Scanning for images\<close>

text \<open>
  C10. When \<^verbatim>\<open>tempDirectory\<close> is the empty string or names no existing directory,
  \<^verbatim>\<open>LoadFlagImages\<close> clears the catalog it held and returns with an empty catalog; it
  shows no message, whatever the library would have raised.
\<close>

theorem LoadFlagImages_absent:
  "tempDirectory s = [] \<or> \<not> DirExists (disk s) (tempDirectory s) \<Longrightarrow>
     LoadFlagImages p s = s\<lparr>flagFiles := []\<rparr>
     \<and> flagFiles (LoadFlagImages p s) = []
     \<and> shown (LoadFlagImages p s) = shown s"
  by (auto simp add: LoadFlagImages_def)

theorem LoadFlagImages_absent_witness:
  "flagFiles demo_state = [''old.png'']
   \<and> tempDirectory demo_state = []
   \<and> LoadFlagImages (demo_platform []) demo_state = demo_state\<lparr>flagFiles := []\<rparr>
   \<and> \<not> DirExists demo_disk ''C:/Temp/FlagImages_1000''
   \<and> flagFiles (LoadFlagImages (demo_platform [])
        (demo_state\<lparr>tempDirectory := ''C:/Temp/FlagImages_1000''\<rparr>)) = []
   \<and> shown (LoadFlagImages (demo_platform [])
        (demo_state\<lparr>tempDirectory := ''C:/Temp/FlagImages_1000''\<rparr>)) = []"
proof -
  have a: "tempDirectory demo_state = []" "flagFiles demo_state = [''old.png'']"
    "shown demo_state = []" "disk demo_state = demo_disk"
    by (simp_all add: demo_state_def)
  have b: "\<not> DirExists demo_disk ''C:/Temp/FlagImages_1000''"
    by code_simp
  show ?thesis
    using a b LoadFlagImages_absent [of demo_state "demo_platform []"]
      LoadFlagImages_absent [of "demo_state\<lparr>tempDirectory := ''C:/Temp/FlagImages_1000''\<rparr>" "demo_platform []"]
    by simp
qed

section \<open>Removing the workspace\<close>

lemma within_refl: "within d d"
  by (simp add: within_def)

lemma remove_tree_gone: "d \<notin> set (dirs (remove_tree f d))"
  by (simp add: remove_tree_def within_refl)



lemma CleanupTempFiles_fields [simp]:
  "tempDirectory (CleanupTempFiles p s) = tempDirectory s"
  "shown (CleanupTempFiles p s) = shown s"
  "flagFiles (CleanupTempFiles p s) = flagFiles s"
  by (simp_all add: CleanupTempFiles_def split: sum.splits)

lemma CleanupTempFiles_removes:
  "raises p (Delete_call (tempDirectory s)) = None \<Longrightarrow>
     \<not> DirExists (disk (CleanupTempFiles p s)) (tempDirectory s)"
  by (auto simp add: CleanupTempFiles_def TDirectory_Delete_def DirExists_def remove_tree_gone)

lemma CleanupTempFiles_absent:
  "tempDirectory s = [] \<or> \<not> DirExists (disk s) (tempDirectory s) \<Longrightarrow> CleanupTempFiles p s = s"
  by (auto simp add: CleanupTempFiles_def)

text \<open>
  C6. \<^verbatim>\<open>CleanupTempFiles\<close> changes nothing when there is no workspace (the path is empty or
  the directory is absent). When the recursive delete does not raise, the directory is gone
  afterwards and a second call changes nothing. When the delete raises, the exception is
  swallowed: the call returns the state as it was. In no case is a message shown.
\<close>

theorem CleanupTempFiles_idempotent:
  "(tempDirectory s = [] \<or> \<not> DirExists (disk s) (tempDirectory s) \<longrightarrow> CleanupTempFiles p s = s)
   \<and> (raises p (Delete_call (tempDirectory s)) = None \<longrightarrow>
        \<not> DirExists (disk (CleanupTempFiles p s)) (tempDirectory s)
        \<and> CleanupTempFiles p (CleanupTempFiles p s) = CleanupTempFiles p s)
   \<and> (\<forall>m. raises p (Delete_call (tempDirectory s)) = Some m \<longrightarrow> CleanupTempFiles p s = s)
   \<and> shown (CleanupTempFiles p s) = shown s"
proof -
  have a: "tempDirectory s = [] \<or> \<not> DirExists (disk s) (tempDirectory s) \<longrightarrow> CleanupTempFiles p s = s"
    using CleanupTempFiles_absent by blast
  have b: "\<not> DirExists (disk (CleanupTempFiles p s)) (tempDirectory s)
        \<and> CleanupTempFiles p (CleanupTempFiles p s) = CleanupTempFiles p s"
    if "raises p (Delete_call (tempDirectory s)) = None"
  proof -
    have gone: "\<not> DirExists (disk (CleanupTempFiles p s)) (tempDirectory s)"
      using that by (rule CleanupTempFiles_removes)
    then have "\<not> DirExists (disk (CleanupTempFiles p s)) (tempDirectory (CleanupTempFiles p s))"
      by simp
    then have "CleanupTempFiles p (CleanupTempFiles p s) = CleanupTempFiles p s"
      using CleanupTempFiles_absent by blast
    with gone show ?thesis by simp
  qed
  have c: "\<forall>m. raises p (Delete_call (tempDirectory s)) = Some m \<longrightarrow> CleanupTempFiles p s = s"
    by (simp add: CleanupTempFiles_def TDirectory_Delete_def)
  from a b c show ?thesis by simp
qed

theorem CleanupTempFiles_idempotent_witness:
  "CleanupTempFiles (demo_platform []) demo_state = demo_state
   \<and> disk (CleanupTempFiles (demo_platform []) demo_workspace) = demo_disk
   \<and> CleanupTempFiles (demo_platform []) (CleanupTempFiles (demo_platform []) demo_workspace)
       = CleanupTempFiles (demo_platform []) demo_workspace
   \<and> CleanupTempFiles locked_platform demo_workspace = demo_workspace
   \<and> shown (CleanupTempFiles locked_platform demo_workspace) = []"
proof -
  have a: "tempDirectory demo_state = []"
    by (simp add: demo_state_def)
  have b: "raises (demo_platform []) (Delete_call (tempDirectory demo_workspace)) = None"
    by (simp add: demo_platform_def)
  have c: "raises locked_platform (Delete_call (tempDirectory demo_workspace)) = Some ''in use''"
    by (simp add: locked_platform_def)
  have d: "disk (CleanupTempFiles (demo_platform []) demo_workspace) = demo_disk"
    by code_simp
  have e: "shown demo_workspace = []"
    by (simp add: demo_workspace_def demo_state_def)
  show ?thesis
    using a b c d e CleanupTempFiles_idempotent [of demo_state "demo_platform []"]
      CleanupTempFiles_idempotent [of demo_workspace "demo_platform []"]
      CleanupTempFiles_idempotent [of demo_workspace locked_platform]
    by simp
qed

section \<open>The catalog\<close>

lemma search_files_quiet:
  "\<forall>e\<in>set exts. raises p (GetFiles_call td e) = None \<Longrightarrow>
     search_files p f td exts acc
       = (None, acc @ concat (map (\<lambda>e. map (render td) (found f td e)) exts))"
  by (induction exts arbitrary: acc) (simp_all add: TDirectory_GetFiles_def)

lemma found_empty:
  "\<forall>n\<in>set (files f). under (canon td) n \<longrightarrow> \<not> mask_match e (last n) \<Longrightarrow> found f td e = []"
  by (auto simp add: found_def filter_empty_conv)

lemma LoadFlagImages_present:
  assumes "tempDirectory s \<noteq> []" and "DirExists (disk s) (tempDirectory s)"
    and "\<forall>e\<in>set extensions. raises p (GetFiles_call (tempDirectory s) e) = None"
  shows "LoadFlagImages p s =
     s\<lparr>flagFiles := concat (map (\<lambda>e. map (render (tempDirectory s)) (found (disk s) (tempDirectory s) e)) extensions)\<rparr>"
  using assms by (simp add: LoadFlagImages_def search_files_quiet)

text \<open>
  C3. When the workspace exists and holds no file whose name matches one of the five
  patterns, and \<^verbatim>\<open>GetFiles\<close> does not raise, \<^verbatim>\<open>LoadFlagImages\<close> ends with an empty catalog and
  shows no message: only \<^verbatim>\<open>flagFiles\<close> changes. When the extraction succeeded and the catalog
  is empty, \<^verbatim>\<open>InitializeApplication\<close> sets the status "Status: No image files found", which
  is not the status "Status: Resource extraction failed" of a failed extraction.
\<close>

theorem empty_catalog_is_reported:
  "(tempDirectory s \<noteq> [] \<and> DirExists (disk s) (tempDirectory s)
      \<and> (\<forall>e\<in>set extensions. raises p (GetFiles_call (tempDirectory s) e) = None)
      \<and> (\<forall>n\<in>set (files (disk s)). under (canon (tempDirectory s)) n \<longrightarrow>
            (\<forall>e\<in>set extensions. \<not> mask_match e (last n)))
      \<longrightarrow> LoadFlagImages p s = s\<lparr>flagFiles := []\<rparr>)
   \<and> (ExtractResourceAsZip p (s\<lparr>LabelStatus := ''Status: Extracting resource...''\<rparr>) = (True, s1)
        \<and> flagFiles (LoadFlagImages p s1) = []
      \<longrightarrow> InitializeApplication r p s =
            Some ((LoadFlagImages p s1)\<lparr>LabelStatus := ''Status: No image files found'',
                                        LabelStatus_Color := clRed\<rparr>))
   \<and> ''Status: No image files found'' \<noteq> ''Status: Resource extraction failed''"
proof -
  have a: "LoadFlagImages p s = s\<lparr>flagFiles := []\<rparr>"
    if h: "tempDirectory s \<noteq> []" "DirExists (disk s) (tempDirectory s)"
      "\<forall>e\<in>set extensions. raises p (GetFiles_call (tempDirectory s) e) = None"
      "\<forall>n\<in>set (files (disk s)). under (canon (tempDirectory s)) n \<longrightarrow>
            (\<forall>e\<in>set extensions. \<not> mask_match e (last n))"
  proof -
    have "found (disk s) (tempDirectory s) e = []" if "e \<in> set extensions" for e
      using h(4) that by (intro found_empty) blast
    then have "concat (map (\<lambda>e. map (render (tempDirectory s)) (found (disk s) (tempDirectory s) e)) extensions) = []"
      by simp
    with LoadFlagImages_present [OF h(1) h(2) h(3)] show ?thesis by simp
  qed
  have b: "InitializeApplication r p s =
            Some ((LoadFlagImages p s1)\<lparr>LabelStatus := ''Status: No image files found'',
                                        LabelStatus_Color := clRed\<rparr>)"
    if "ExtractResourceAsZip p (s\<lparr>LabelStatus := ''Status: Extracting resource...''\<rparr>) = (True, s1)"
      "flagFiles (LoadFlagImages p s1) = []"
    using that by (simp add: InitializeApplication_def)
  have c: "''Status: No image files found'' \<noteq> ''Status: Resource extraction failed''"
    by simp
  from a b c show ?thesis by blast
qed

theorem empty_catalog_is_reported_witness:
  "ExtractResourceAsZip (demo_platform [''c.txt''])
       (demo_state\<lparr>LabelStatus := ''Status: Extracting resource...''\<rparr>) = (True, txt_state)
   \<and> DirExists (disk txt_state) (tempDirectory txt_state)
   \<and> LoadFlagImages (demo_platform [''c.txt'']) txt_state = txt_state\<lparr>flagFiles := []\<rparr>
   \<and> InitializeApplication demo_random (demo_platform [''c.txt'']) demo_state
       = Some (txt_state\<lparr>flagFiles := [], LabelStatus := ''Status: No image files found'',
                          LabelStatus_Color := clRed\<rparr>)"
proof -
  let ?p = "demo_platform [''c.txt'']"
  have x: "ExtractResourceAsZip ?p (demo_state\<lparr>LabelStatus := ''Status: Extracting resource...''\<rparr>)
             = (True, txt_state)"
    by code_simp
  have h1: "tempDirectory txt_state \<noteq> []"
    by (simp add: txt_state_def)
  have h2: "DirExists (disk txt_state) (tempDirectory txt_state)"
    by code_simp
  have h3: "\<forall>e\<in>set extensions. raises ?p (GetFiles_call (tempDirectory txt_state) e) = None"
    by (simp add: demo_platform_def)
  have h4: "\<forall>n\<in>set (files (disk txt_state)). under (canon (tempDirectory txt_state)) n \<longrightarrow>
            (\<forall>e\<in>set extensions. \<not> mask_match e (last n))"
    by code_simp
  from empty_catalog_is_reported [of txt_state ?p txt_state demo_random] h1 h2 h3 h4
  have y: "LoadFlagImages ?p txt_state = txt_state\<lparr>flagFiles := []\<rparr>"
    by blast
  then have "flagFiles (LoadFlagImages ?p txt_state) = []"
    by simp
  with empty_catalog_is_reported [of demo_state ?p txt_state demo_random] x
  have "InitializeApplication demo_random ?p demo_state =
            Some ((LoadFlagImages ?p txt_state)\<lparr>LabelStatus := ''Status: No image files found'',
                                        LabelStatus_Color := clRed\<rparr>)"
    by blast
  with x h2 y show ?thesis
    by simp
qed

lemma render_child: "render td (canon td @ [x]) = Combine td x"
  by (simp add: render_def)

lemma png_names:
  "mask_match ''*.png'' ''a.png''" "mask_match ''*.png'' ''b.PNG''" "\<not> mask_match ''*.png'' ''c.txt''"
  by code_simp+

lemma other_names:
  "\<not> mask_match ''*.jpg'' ''a.png''" "\<not> mask_match ''*.jpg'' ''b.PNG''" "\<not> mask_match ''*.jpg'' ''c.txt''"
  "\<not> mask_match ''*.jpeg'' ''a.png''" "\<not> mask_match ''*.jpeg'' ''b.PNG''" "\<not> mask_match ''*.jpeg'' ''c.txt''"
  "\<not> mask_match ''*.bmp'' ''a.png''" "\<not> mask_match ''*.bmp'' ''b.PNG''" "\<not> mask_match ''*.bmp'' ''c.txt''"
  "\<not> mask_match ''*.gif'' ''a.png''" "\<not> mask_match ''*.gif'' ''b.PNG''" "\<not> mask_match ''*.gif'' ''c.txt''"
  by code_simp+

lemma found_set:
  "set (found f td e) = {n \<in> {n \<in> set (files f). under (canon td) n}. mask_match e (last n)}"
  by (auto simp add: found_def)

lemma pick_of_three:
  "{n \<in> {a, b, c}. P n}
     = (if P a then {a} else {}) \<union> (if P b then {b} else {}) \<union> (if P c then {c} else {})"
  by auto

text \<open>
  C9. When the files below the workspace are exactly \<open>a.png\<close>, \<open>b.PNG\<close> and \<open>c.txt\<close>, directly
  in it, \<^verbatim>\<open>LoadFlagImages\<close> ends with a catalog of length 2 that holds exactly the paths of
  \<open>a.png\<close> and \<open>b.PNG\<close>: patterns match without regard to case. The form always searches its
  five patterns; the search for \<open>*.png\<close> alone returns the same catalog.
\<close>

theorem LoadFlagImages_png:
  assumes td: "tempDirectory s \<noteq> []" "DirExists (disk s) (tempDirectory s)"
    and quiet: "\<forall>e\<in>set extensions. raises p (GetFiles_call (tempDirectory s) e) = None"
    and dist: "distinct (files (disk s))"
    and dir: "{n \<in> set (files (disk s)). under (canon (tempDirectory s)) n}
              = {canon (tempDirectory s) @ [''a.png''], canon (tempDirectory s) @ [''b.PNG''],
                 canon (tempDirectory s) @ [''c.txt'']}"
  shows "length (flagFiles (LoadFlagImages p s)) = 2
    \<and> set (flagFiles (LoadFlagImages p s))
        = {Combine (tempDirectory s) ''a.png'', Combine (tempDirectory s) ''b.PNG''}
    \<and> search_files p (disk s) (tempDirectory s) [''*.png''] []
        = (None, flagFiles (LoadFlagImages p s))"
proof -
  let ?td = "tempDirectory s"
  let ?d = "canon ?td"
  let ?png = "found (disk s) ?td ''*.png''"
  have png: "set ?png = {?d @ [''a.png''], ?d @ [''b.PNG'']}"
    unfolding found_set dir pick_of_three
    by (auto simp add: png_names simp del: mask_match.simps)
  have "distinct ?png"
    using dist by (simp add: found_def)
  then have "length ?png = card (set ?png)"
    by (simp add: distinct_card)
  also have "\<dots> = 2"
    unfolding png by simp
  finally have len: "length ?png = 2" .
  have none: "found (disk s) ?td e = []"
    if "e \<in> {''*.jpg'', ''*.jpeg'', ''*.bmp'', ''*.gif''}" for e
  proof -
    have "set (found (disk s) ?td e) = {}"
      unfolding found_set dir pick_of_three using that
      by (auto simp add: other_names simp del: mask_match.simps)
    then show ?thesis by simp
  qed
  have all: "flagFiles (LoadFlagImages p s) = map (render ?td) ?png"
    using LoadFlagImages_present [OF td quiet] none by (simp add: extensions_def)
  have "\<forall>e\<in>set [''*.png'']. raises p (GetFiles_call ?td e) = None"
    using quiet by (simp add: extensions_def)
  from search_files_quiet [OF this, of "disk s" "[]"]
  have one: "search_files p (disk s) ?td [''*.png''] [] = (None, map (render ?td) ?png)"
    by simp
  have "set (map (render ?td) ?png) = {Combine ?td ''a.png'', Combine ?td ''b.PNG''}"
    by (simp add: png render_child)
  with len all one show ?thesis by simp
qed

theorem LoadFlagImages_png_witness:
  "tempDirectory png_state = ''C:/Temp/FlagImages_1000''
   \<and> DirExists (disk png_state) ''C:/Temp/FlagImages_1000''
   \<and> length (flagFiles (LoadFlagImages (demo_platform []) png_state)) = 2
   \<and> set (flagFiles (LoadFlagImages (demo_platform []) png_state))
        = {Combine ''C:/Temp/FlagImages_1000'' ''a.png'', Combine ''C:/Temp/FlagImages_1000'' ''b.PNG''}"
proof -
  have a: "tempDirectory png_state = ''C:/Temp/FlagImages_1000''" "disk png_state = png_disk"
    by (simp_all add: png_state_def)
  have b: "DirExists png_disk ''C:/Temp/FlagImages_1000''"
    by code_simp
  have c: "\<forall>e\<in>set extensions.
             raises (demo_platform []) (GetFiles_call ''C:/Temp/FlagImages_1000'' e) = None"
    by (simp add: demo_platform_def)
  have d: "distinct (files png_disk)"
    by code_simp
  have f: "{n \<in> set (files png_disk). under (canon ''C:/Temp/FlagImages_1000'') n}
              = {canon ''C:/Temp/FlagImages_1000'' @ [''a.png''],
                 canon ''C:/Temp/FlagImages_1000'' @ [''b.PNG''],
                 canon ''C:/Temp/FlagImages_1000'' @ [''c.txt'']}"
    by code_simp
  have h1: "tempDirectory png_state \<noteq> []"
    unfolding a by simp
  have h2: "DirExists (disk png_state) (tempDirectory png_state)"
    unfolding a by (rule b)
  have h3: "\<forall>e\<in>set extensions. raises (demo_platform []) (GetFiles_call (tempDirectory png_state) e) = None"
    unfolding a by (rule c)
  have h4: "distinct (files (disk png_state))"
    unfolding a by (rule d)
  have h5: "{n \<in> set (files (disk png_state)). under (canon (tempDirectory png_state)) n}
              = {canon (tempDirectory png_state) @ [''a.png''], canon (tempDirectory png_state) @ [''b.PNG''],
                 canon (tempDirectory png_state) @ [''c.txt'']}"
    unfolding a by (rule f)
  note t = LoadFlagImages_png [OF h1 h2 h3 h4 h5, unfolded a]
  from t a(1) h2 [unfolded a(2)] show ?thesis
    unfolding a by blast
qed

section \<open>Selecting a flag\<close>







section \<open>The workspace after a failed start\<close>









section \<open>Extracting the archive\<close>

lemma digit_plain: "n < 10 \<Longrightarrow> \<not> is_sep (digit n) \<and> \<not> is_delim (digit n)"
proof -
  assume "n < 10"
  then have "n \<in> {0, 1, 2, 3, 4, 5, 6, 7, 8, 9}"
    by auto
  then show ?thesis
    by (auto simp add: digit_def is_sep_def is_delim_def PathDelim_def)
qed

lemma digits_plain: "\<forall>c\<in>set (digits n). \<not> is_sep c \<and> \<not> is_delim c"
proof (induction n rule: digits.induct)
  case (1 n)
  show ?case
  proof (cases "n < 10")
    case True
    then show ?thesis
      by (subst digits.simps) (simp add: digit_plain)
  next
    case False
    have "n mod 10 < 10" by simp
    with False 1 show ?thesis
      by (subst digits.simps) (simp add: digit_plain)
  qed
qed

lemma IntToStr_plain: "\<forall>c\<in>set (IntToStr i). \<not> is_sep c \<and> \<not> is_delim c"
  using digits_plain by (simp add: IntToStr_def is_sep_def is_delim_def PathDelim_def)

lemma digits_nonempty: "digits n \<noteq> []"
  by (subst digits.simps) simp

lemma workspace_name_end:
  "a @ ''FlagImages_'' @ IntToStr i \<noteq> []"
  "\<not> is_sep (last (a @ ''FlagImages_'' @ IntToStr i))"
  "\<not> is_delim (last (a @ ''FlagImages_'' @ IntToStr i))"
proof -
  have ne: "IntToStr i \<noteq> []"
    by (simp add: IntToStr_def digits_nonempty)
  then have "last (a @ ''FlagImages_'' @ IntToStr i) = last (IntToStr i)"
    by simp
  also have "\<dots> \<in> set (IntToStr i)"
    using ne by simp
  finally show "\<not> is_sep (last (a @ ''FlagImages_'' @ IntToStr i))"
    "\<not> is_delim (last (a @ ''FlagImages_'' @ IntToStr i))"
    using IntToStr_plain by blast+
  show "a @ ''FlagImages_'' @ IntToStr i \<noteq> []"
    by simp
qed

lemma split_path_plain:
  "\<forall>c\<in>set b. \<not> is_sep c \<Longrightarrow> seg \<noteq> [] \<or> b \<noteq> [] \<Longrightarrow> split_path seg b = [rev seg @ b]"
  by (induction b arbitrary: seg) auto

lemma split_path_tail:
  "\<forall>c\<in>set b. \<not> is_sep c \<Longrightarrow> b \<noteq> [] \<Longrightarrow>
     \<exists>ss x. split_path seg (a @ b) = ss @ [x @ b]"
proof (induction a arbitrary: seg)
  case Nil
  then show ?case
    using split_path_plain [of b seg] by auto
next
  case (Cons c a)
  from Cons.IH [OF Cons.prems] obtain ss x where "split_path [] (a @ b) = ss @ [x @ b]"
    by blast
  moreover from Cons.IH [OF Cons.prems] obtain ss' x' where
    "split_path (c # seg) (a @ b) = ss' @ [x' @ b]"
    by blast
  ultimately show ?case
    by (cases "is_sep c"; cases "seg = []") (auto intro: exI [of _ "_ # _"])
qed

lemma resolve_last:
  "s \<noteq> ''.'' \<Longrightarrow> s \<noteq> ''..'' \<Longrightarrow> resolve acc (ss @ [s]) \<noteq> []"
  by (induction ss arbitrary: acc) auto

lemma canon_workspace: "canon (a @ ''FlagImages_'' @ IntToStr i) \<noteq> []"
proof -
  let ?b = "''FlagImages_'' @ IntToStr i"
  have "\<forall>c\<in>set ?b. \<not> is_sep c"
    using IntToStr_plain [of i] by (simp add: is_sep_def PathDelim_def)
  moreover have "?b \<noteq> []" by simp
  ultimately obtain ss x where sp: "split_path [] (a @ ?b) = ss @ [x @ ?b]"
    using split_path_tail by blast
  have "CHR ''F'' \<in> set (x @ ?b)" by simp
  then have "x @ ?b \<noteq> ''.''" "x @ ?b \<noteq> ''..''"
    by auto
  then show ?thesis
    unfolding canon_def sp by (rule resolve_last)
qed

lemma make_dirs_files [simp]: "files (make_dirs f n) = files f"
  by (simp add: make_dirs_def)

lemma make_dirs_self: "n \<noteq> [] \<Longrightarrow> n \<in> set (dirs (make_dirs f n))"
proof -
  assume "n \<noteq> []"
  then have "length n \<in> set [1..<Suc (length n)]"
    by (cases n) simp_all
  then have "take (length n) n \<in> set (ancestors n)"
    unfolding ancestors_def set_map by (rule imageI)
  then show ?thesis
    by (auto simp add: make_dirs_def)
qed

lemma make_file_files: "set (files (make_file f n)) = insert n (set (files f))"
  by (auto simp add: make_file_def)

lemma TZipFile_Extract_files:
  assumes "raises p (ZipExtract_call n d) = None"
  shows "\<exists>f2. TZipFile_Extract p f n d = Inr f2
           \<and> set (files f2) =
               (if extract_target d n \<noteq> [] \<and> is_sep (last (extract_target d n))
                then set (files f) else insert (canon (extract_target d n)) (set (files f)))"
  using assms by (auto simp add: TZipFile_Extract_def Let_def make_file_files)

lemma extract_entries_files:
  assumes "\<forall>c. raises p c = None"
  shows "fst (extract_entries p td ns f) = None
     \<and> set (files (snd (extract_entries p td ns f)))
         = set (files f)
           \<union> (\<lambda>n. canon (written td n))
               ` {n \<in> set ns. written td n = [] \<or> \<not> is_sep (last (written td n))}"
proof (induction ns arbitrary: f)
  case Nil
  show ?case by simp
next
  case (Cons n ns)
  let ?dir = "GetDirectoryName (Combine td n)"
  let ?f1 = "if \<not> DirExists f ?dir
             then (if refuses p ?dir then f else make_dirs f (canon ?dir)) else f"
  have mk: "(if \<not> DirExists f ?dir then TDirectory_CreateDirectory p f ?dir else Inr f) = Inr ?f1"
    using assms by (simp add: TDirectory_CreateDirectory_def)
  have f1: "files ?f1 = files f"
    by simp
  from assms have "raises p (ZipExtract_call n ?dir) = None"
    by simp
  from TZipFile_Extract_files [OF this, of ?f1] f1 obtain f2 where
    f2: "TZipFile_Extract p ?f1 n ?dir = Inr f2"
      "set (files f2) =
         (if written td n \<noteq> [] \<and> is_sep (last (written td n))
          then set (files f) else insert (canon (written td n)) (set (files f)))"
    unfolding written_def by auto
  have step: "extract_entries p td (n # ns) f = extract_entries p td ns f2"
    using mk f2(1) by (simp add: Let_def)
  let ?file = "\<lambda>n. written td n = [] \<or> \<not> is_sep (last (written td n))"
  have pick: "{x \<in> set (n # ns). ?file x}
                = (if ?file n then insert n {x \<in> set ns. ?file x} else {x \<in> set ns. ?file x})"
    by auto
  show ?case
  proof (cases "?file n")
    case True
    with Cons.IH [of f2] f2(2) show ?thesis
      unfolding step pick by auto
  next
    case False
    with Cons.IH [of f2] f2(2) show ?thesis
      unfolding step pick by auto
  qed
qed

lemma ExtractZipToTemp_tempDirectory:
  "tempDirectory (snd (ExtractZipToTemp p s))
     = GetTempPath p @ ''FlagImages_'' @ IntToStr (sint (GetTickCount p 1))"
  by (simp add: ExtractZipToTemp_def Let_def split: sum.splits option.splits prod.splits)

lemma ExtractZipToTemp_quiet:
  assumes "\<forall>c. raises p c = None"
    and "\<not> refuses p (GetTempPath p @ ''FlagImages_'' @ IntToStr (sint (GetTickCount p 1)))"
  shows "ExtractZipToTemp p s =
     (True,
      s\<lparr>tempDirectory := GetTempPath p @ ''FlagImages_'' @ IntToStr (sint (GetTickCount p 1)),
         disk := snd (extract_entries p
                   (GetTempPath p @ ''FlagImages_'' @ IntToStr (sint (GetTickCount p 1)))
                   (FileNames p)
                   (make_dirs (disk s)
                     (canon (GetTempPath p @ ''FlagImages_''
                               @ IntToStr (sint (GetTickCount p 1))))))\<rparr>)"
proof -
  let ?td = "GetTempPath p @ ''FlagImages_'' @ IntToStr (sint (GetTickCount p 1))"
  let ?f = "make_dirs (disk s) (canon ?td)"
  let ?r = "extract_entries p ?td (FileNames p) ?f"
  have there: "DirExists ?f ?td"
    using canon_workspace [of "GetTempPath p" "sint (GetTickCount p 1)"]
    by (simp add: DirExists_def make_dirs_self)
  have q: "fst ?r = None"
    using extract_entries_files [OF assms(1)] by blast
  show ?thesis
    using assms there q
    by (cases ?r) (simp add: ExtractZipToTemp_def TDirectory_CreateDirectory_def)
qed




text \<open>
  C2 fails on an entry whose directory is set off by a backslash. \<^verbatim>\<open>GetDirectoryName\<close> cuts
  \<^verbatim>\<open>fullPath\<close> at that backslash, so the loop passes \<^verbatim>\<open>Extract\<close> a directory that already
  holds the directory of the entry, and \<^verbatim>\<open>Extract\<close>, called without its third argument,
  appends the whole entry name to it: the entry \<open>sub\<close>, backslash, \<open>flag2.jpg\<close> is written to
  \<open>sub/sub/flag2.jpg\<close> below the workspace and not to \<^verbatim>\<open>fullPath\<close>.
\<close>

theorem backslash_entry_is_nested_twice:
  "fst (ExtractZipToTemp (demo_platform [''sub'' @ [PathDelim] @ ''flag2.jpg'']) demo_state)
   \<and> tempDirectory
        (snd (ExtractZipToTemp (demo_platform [''sub'' @ [PathDelim] @ ''flag2.jpg'']) demo_state))
       = ''C:/Temp/FlagImages_1000''
   \<and> canon (Combine ''C:/Temp/FlagImages_1000'' (''sub'' @ [PathDelim] @ ''flag2.jpg''))
       = [''C:'', ''Temp'', ''FlagImages_1000'', ''sub'', ''flag2.jpg'']
   \<and> files (disk
        (snd (ExtractZipToTemp (demo_platform [''sub'' @ [PathDelim] @ ''flag2.jpg'']) demo_state)))
       = [[''C:'', ''Temp'', ''FlagImages_1000'', ''sub'', ''sub'', ''flag2.jpg'']]"
  by code_simp

lemma to_delim_sep: "is_sep (if c = CHR ''/'' then PathDelim else c) = is_sep c"
  by (simp add: is_sep_def)

lemma split_path_to_delim: "split_path seg (a @ to_delim n) = split_path seg (a @ n)"
proof (induction a arbitrary: seg)
  case Nil
  show ?case
  proof (induction n arbitrary: seg)
    case Nil
    show ?case by (simp add: to_delim_def)
  next
    case (Cons c cs)
    have "to_delim (c # cs) = (if c = CHR ''/'' then PathDelim else c) # to_delim cs"
      by (simp add: to_delim_def)
    with Cons show ?case
      by (auto simp add: is_sep_def)
  qed
next
  case (Cons c a)
  then show ?case by simp
qed

lemma is_rooted_to_delim: "is_rooted (to_delim n) = is_rooted n"
  by (auto simp add: is_rooted_def to_delim_def is_sep_def PathDelim_def split: list.splits)

lemma written_in_place:
  assumes td: "td \<noteq> []" "\<not> is_sep (last td)" "\<not> is_delim (last td)"
    and n: "n \<noteq> []" "\<not> is_rooted n" "\<forall>c\<in>set n. \<not> is_delim c"
  shows "canon (written td n) = canon (Combine td n)"
    and "written td n \<noteq> []"
    and "is_sep (last (written td n)) = is_sep (last n)"
proof -
  have c: "Combine td n = td @ PathDelim # n"
    using td n by (simp add: Combine_def)
  have "dropWhile (\<lambda>c. \<not> is_delim c) (rev n @ PathDelim # rev td) = PathDelim # rev td"
    using n(3) by (simp add: dropWhile_append3 is_delim_def)
  moreover have "rev td \<noteq> []" "hd (rev td) = last td"
    using td(1) by (simp_all add: hd_rev)
  ultimately have d: "GetDirectoryName (td @ PathDelim # n) = td"
    using td(3) by (simp add: GetDirectoryName_def)
  have e: "to_delim n \<noteq> []" "\<not> is_rooted (to_delim n)"
    using n by (simp_all add: is_rooted_to_delim) (simp add: to_delim_def)
  have "written td n = Combine td (to_delim n)"
    unfolding written_def extract_target_def c d by (rule refl)
  also have "\<dots> = td @ PathDelim # to_delim n"
    using td e by (simp add: Combine_def)
  finally have w: "written td n = td @ PathDelim # to_delim n" .
  show "written td n \<noteq> []"
    by (simp add: w)
  have "split_path [] ((td @ [PathDelim]) @ to_delim n) = split_path [] ((td @ [PathDelim]) @ n)"
    by (rule split_path_to_delim)
  then show "canon (written td n) = canon (Combine td n)"
    by (simp add: canon_def w c)
  have "last (written td n) = last (to_delim n)"
    using e(1) by (simp add: w)
  also have "\<dots> = (if last n = CHR ''/'' then PathDelim else last n)"
    using n(1) by (simp add: to_delim_def last_map)
  finally show "is_sep (last (written td n)) = is_sep (last n)"
    by (simp add: is_sep_def)
qed

text \<open>
  What does hold of C2: an archive whose entry names are relative and hold neither a
  backslash nor a colon, so that their directories are set off by slashes. When the
  workspace directory is created and no library call raises, \<^verbatim>\<open>ExtractZipToTemp\<close> returns
  true, and the files on the disk afterwards are those that were there and, for each entry
  that does not name a directory, the file at \<^verbatim>\<open>fullPath\<close>.
\<close>

theorem slash_named_archive_is_extracted_in_place:
  assumes quiet: "\<forall>c. raises p c = None"
    and made: "\<not> refuses p (GetTempPath p @ ''FlagImages_'' @ IntToStr (sint (GetTickCount p 1)))"
    and names: "\<forall>n\<in>set (FileNames p). n \<noteq> [] \<and> \<not> is_rooted n \<and> (\<forall>c\<in>set n. \<not> is_delim c)"
  shows "fst (ExtractZipToTemp p s)
    \<and> set (files (disk (snd (ExtractZipToTemp p s))))
        = set (files (disk s))
          \<union> (\<lambda>n. canon (Combine (tempDirectory (snd (ExtractZipToTemp p s))) n))
              ` {n \<in> set (FileNames p). \<not> is_sep (last n)}"
proof -
  let ?td = "GetTempPath p @ ''FlagImages_'' @ IntToStr (sint (GetTickCount p 1))"
  let ?f = "make_dirs (disk s) (canon ?td)"
  let ?r = "extract_entries p ?td (FileNames p) ?f"
  note td = workspace_name_end [of "GetTempPath p" "sint (GetTickCount p 1)"]
  have w: "canon (written ?td n) = canon (Combine ?td n)" "written ?td n \<noteq> []"
    "is_sep (last (written ?td n)) = is_sep (last n)"
    if "n \<in> set (FileNames p)" for n
    using written_in_place [OF td, of n] names that by blast+
  have "{n \<in> set (FileNames p). written ?td n = [] \<or> \<not> is_sep (last (written ?td n))}
          = {n \<in> set (FileNames p). \<not> is_sep (last n)}"
    using w(2,3) by blast
  moreover have "set (files (snd ?r))
      = set (files ?f)
        \<union> (\<lambda>n. canon (written ?td n))
            ` {n \<in> set (FileNames p). written ?td n = [] \<or> \<not> is_sep (last (written ?td n))}"
    using extract_entries_files [OF quiet] by blast
  moreover have "(\<lambda>n. canon (written ?td n)) ` {n \<in> set (FileNames p). \<not> is_sep (last n)}
               = (\<lambda>n. canon (Combine ?td n)) ` {n \<in> set (FileNames p). \<not> is_sep (last n)}"
    using w(1) by (intro image_cong) simp_all
  ultimately have "set (files (snd ?r))
      = set (files (disk s))
        \<union> (\<lambda>n. canon (Combine ?td n)) ` {n \<in> set (FileNames p). \<not> is_sep (last n)}"
    by simp
  then show ?thesis
    unfolding ExtractZipToTemp_quiet [OF quiet made] by simp
qed

theorem slash_named_archive_is_extracted_in_place_witness:
  "(\<forall>c. raises (demo_platform [''flag1.png'', ''sub/flag2.jpg'']) c = None)
   \<and> \<not> refuses (demo_platform [''flag1.png'', ''sub/flag2.jpg'']) ''C:/Temp/FlagImages_1000''
   \<and> fst (ExtractZipToTemp (demo_platform [''flag1.png'', ''sub/flag2.jpg'']) demo_state)
   \<and> set (files (disk (snd (ExtractZipToTemp (demo_platform [''flag1.png'', ''sub/flag2.jpg''])
                                 demo_state))))
       = {[''C:'', ''Temp'', ''FlagImages_1000'', ''flag1.png''],
          [''C:'', ''Temp'', ''FlagImages_1000'', ''sub'', ''flag2.jpg'']}"
proof -
  let ?p = "demo_platform [''flag1.png'', ''sub/flag2.jpg'']"
  have q: "\<forall>c. raises ?p c = None"
    by (simp add: demo_platform_def)
  have name: "GetTempPath ?p @ ''FlagImages_'' @ IntToStr (sint (GetTickCount ?p 1))
                = ''C:/Temp/FlagImages_1000''"
    by code_simp
  have m: "\<not> refuses ?p ''C:/Temp/FlagImages_1000''"
    by (simp add: demo_platform_def)
  have names: "\<forall>n\<in>set (FileNames ?p). n \<noteq> [] \<and> \<not> is_rooted n \<and> (\<forall>c\<in>set n. \<not> is_delim c)"
    by code_simp
  have td: "tempDirectory (snd (ExtractZipToTemp ?p demo_state)) = ''C:/Temp/FlagImages_1000''"
    by code_simp
  have c: "canon (Combine ''C:/Temp/FlagImages_1000'' ''flag1.png'')
             = [''C:'', ''Temp'', ''FlagImages_1000'', ''flag1.png'']"
    "canon (Combine ''C:/Temp/FlagImages_1000'' ''sub/flag2.jpg'')
             = [''C:'', ''Temp'', ''FlagImages_1000'', ''sub'', ''flag2.jpg'']"
    "\<not> is_sep (last ''flag1.png'')" "\<not> is_sep (last ''sub/flag2.jpg'')"
    by code_simp+
  have n: "FileNames ?p = [''flag1.png'', ''sub/flag2.jpg'']" "files (disk demo_state) = []"
    by (simp_all add: demo_platform_def demo_state_def demo_disk_def)
  have pick: "{x \<in> set [a, b]. P x} = (if P a then {a} else {}) \<union> (if P b then {b} else {})"
    for a b :: string and P
    by auto
  have m': "\<not> refuses ?p (GetTempPath ?p @ ''FlagImages_'' @ IntToStr (sint (GetTickCount ?p 1)))"
    unfolding name by (rule m)
  from slash_named_archive_is_extracted_in_place [OF q m' names, of demo_state] m q show ?thesis
    unfolding td n pick by (simp add: c insert_commute is_sep_def PathDelim_def)
qed

text \<open>
  The workspace that cannot be made. When \<^verbatim>\<open>CreateDirectory\<close> returns without raising and
  without having made the directory, the test of \<^verbatim>\<open>TDirectory::Exists\<close> that follows it
  fails: \<^verbatim>\<open>ExtractZipToTemp\<close> shows "Unable to create temporary directory" and returns false,
  with nothing extracted.
\<close>

theorem workspace_refused:
  assumes "raises p (CreateDirectory_call
             (GetTempPath p @ ''FlagImages_'' @ IntToStr (sint (GetTickCount p 1)))) = None"
    and "refuses p (GetTempPath p @ ''FlagImages_'' @ IntToStr (sint (GetTickCount p 1)))"
    and "\<not> DirExists (disk s)
             (GetTempPath p @ ''FlagImages_'' @ IntToStr (sint (GetTickCount p 1)))"
  shows "ExtractZipToTemp p s =
     (False,
      ShowMessage ''Unable to create temporary directory''
        (s\<lparr>tempDirectory :=
             GetTempPath p @ ''FlagImages_'' @ IntToStr (sint (GetTickCount p 1))\<rparr>))"
  using assms by (simp add: ExtractZipToTemp_def TDirectory_CreateDirectory_def)

theorem workspace_refused_witness:
  "(\<forall>c. raises read_only c = None)
   \<and> refuses read_only ''C:/Temp/FlagImages_1000''
   \<and> \<not> fst (ExtractZipToTemp read_only demo_state)
   \<and> shown (snd (ExtractZipToTemp read_only demo_state))
       = [''Unable to create temporary directory'']
   \<and> disk (snd (ExtractZipToTemp read_only demo_state)) = demo_disk"
proof -
  have name: "GetTempPath read_only @ ''FlagImages_'' @ IntToStr (sint (GetTickCount read_only 1))
                = ''C:/Temp/FlagImages_1000''"
    by code_simp
  have q: "\<forall>c. raises read_only c = None"
    by (simp add: read_only_def demo_platform_def)
  have r: "refuses read_only ''C:/Temp/FlagImages_1000''"
    by (simp add: read_only_def)
  have a: "\<not> DirExists (disk demo_state) ''C:/Temp/FlagImages_1000''"
    by code_simp
  have s: "shown demo_state = []" "disk demo_state = demo_disk"
    by (simp_all add: demo_state_def)
  from workspace_refused [of read_only demo_state, unfolded name] q r a show ?thesis
    by (simp add: s ShowMessage_def)
qed

text \<open>
  C7 fails: the name of the workspace is the temporary-files root, the prefix
  \<open>FlagImages_\<close> and the decimal tick count, and nothing else. Two instances that read the
  same tick count get the same directory: the second extracts into the workspace of the
  first, and the first to close removes the files of both.
\<close>

theorem workspace_name_from_tick_alone:
  "GetTempPath p = GetTempPath q \<Longrightarrow> GetTickCount p 1 = GetTickCount q 1 \<Longrightarrow>
     tempDirectory (snd (ExtractZipToTemp p s)) = tempDirectory (snd (ExtractZipToTemp q t))"
  by (simp add: ExtractZipToTemp_tempDirectory)

theorem workspace_name_from_tick_alone_witness:
  "tempDirectory first_instance = tempDirectory second_instance
   \<and> tempDirectory first_instance = ''C:/Temp/FlagImages_1000''
   \<and> files (disk second_instance)
       = [[''C:'', ''Temp'', ''FlagImages_1000'', ''a.png''],
          [''C:'', ''Temp'', ''FlagImages_1000'', ''b.png'']]
   \<and> disk (TForm1_destroy (demo_platform [''a.png''])
              (first_instance\<lparr>disk := disk second_instance\<rparr>)) = demo_disk"
proof -
  have "GetTempPath (demo_platform [''a.png'']) = GetTempPath (demo_platform [''b.png''])"
    "GetTickCount (demo_platform [''a.png'']) 1 = GetTickCount (demo_platform [''b.png'']) 1"
    by (simp_all add: demo_platform_def)
  from workspace_name_from_tick_alone [OF this]
  have same: "tempDirectory first_instance = tempDirectory second_instance"
    unfolding first_instance_def second_instance_def .
  have "tempDirectory first_instance = ''C:/Temp/FlagImages_1000''"
    by code_simp
  moreover have "files (disk second_instance)
       = [[''C:'', ''Temp'', ''FlagImages_1000'', ''a.png''],
          [''C:'', ''Temp'', ''FlagImages_1000'', ''b.png'']]"
    by code_simp
  moreover have "disk (TForm1_destroy (demo_platform [''a.png''])
              (first_instance\<lparr>disk := disk second_instance\<rparr>)) = demo_disk"
    by code_simp
  ultimately show ?thesis
    using same by simp
qed

end
